theory Spec2Isabelle
  imports Main "HOL-Library.Monad_Syntax"
begin

section \<open>The store: referents, handles and raw pointer slots\<close>

text \<open>
  \<^verbatim>\<open>api/scoped_refptr.h\<close> declares \<^verbatim>\<open>template <class T> class scoped_refptr\<close> with the
  single field \<^verbatim>\<open>T* ptr_\<close>.  A referent (an object of type \<^verbatim>\<open>T\<close>) is identified by
  its address, a \<^verbatim>\<open>T*\<close> is an optional address (\<open>None\<close> is \<^verbatim>\<open>nullptr\<close>).  Handles are
  objects with an address of their own: the claims about self-assignment, self-move and
  swapping depend on which handle objects coincide, so the fields live in a store that is
  indexed by the address of the slot.  A \<^verbatim>\<open>T**\<close> (the argument of \<^verbatim>\<open>swap(T** pp)\<close>) points
  either at the field of a handle or at a pointer variable of the caller.

  A conversion between related pointer types (\<^verbatim>\<open>U*\<close> to \<^verbatim>\<open>T*\<close>) keeps the identity of the
  referent, so the member templates over \<^verbatim>\<open>U\<close> are modelled on the same types as the
  members over \<^verbatim>\<open>T\<close>.
\<close>

type_synonym ref = nat

type_synonym ptr = "ref option"

datatype handle = Named nat | Temporary

datatype slot = Field handle | Raw nat

datatype event = Inc ref | Dec ref | Delete ref

text \<open>
  \<open>slots w a = None\<close>: no object lives at \<open>a\<close>; \<open>slots w a = Some p\<close>: the pointer stored at
  \<open>a\<close> is \<open>p\<close>.  \<open>count\<close> is the claim count that each referent stores, \<open>alive\<close> tells whether
  the referent has not destroyed itself yet, and \<open>log\<close> records every call of
  \<^verbatim>\<open>AddRef\<close> and \<^verbatim>\<open>Release\<close> and every destruction of a referent, in the order they happen.
\<close>

record world =
  slots :: "slot \<Rightarrow> ptr option"
  count :: "ref \<Rightarrow> nat"
  alive :: "ref \<Rightarrow> bool"
  log :: "event list"

definition ptr_field :: "world \<Rightarrow> handle \<Rightarrow> ptr option" where
  "ptr_field w h = slots w (Field h)"

definition live :: "world \<Rightarrow> handle \<Rightarrow> bool" where
  "live w h = (ptr_field w h \<noteq> None)"

definition store :: "slot \<Rightarrow> ptr \<Rightarrow> world \<Rightarrow> world" where
  "store a p w = w\<lparr>slots := (slots w)(a \<mapsto> p)\<rparr>"

definition vacate :: "slot \<Rightarrow> world \<Rightarrow> world" where
  "vacate a w = w\<lparr>slots := (slots w)(a := None)\<rparr>"

section \<open>The referent's side: AddRef and Release\<close>

text \<open>
  Modelled from the spec: \<^verbatim>\<open>T::AddRef()\<close>, the \<^emph>\<open>increment\<close> of the Referenceable capability.
  The class \<^verbatim>\<open>T\<close> with its members \<^verbatim>\<open>AddRef()\<close> and \<^verbatim>\<open>Release()\<close> is a template parameter
  and is not part of the header.  The spec requires of it:
  \<^emph>\<open>increment\<close> registers one more claim and may be called while the referent is alive;
  \<^emph>\<open>decrement\<close> releases one claim, the referent destroys itself when the count reaches
  zero, and it must not be called more often than \<^emph>\<open>increment\<close>.  A call outside this
  contract (on a destroyed referent, or a decrement at count zero) is undefined behaviour,
  the result \<open>None\<close>.
\<close>

definition AddRef :: "ref \<Rightarrow> world \<Rightarrow> world option" where
  "AddRef r w =
     (if \<not> alive w r then None
      else Some (w\<lparr>count := (count w)(r := count w r + 1), log := log w @ [Inc r]\<rparr>))"

text \<open>
  Modelled from the spec: \<^verbatim>\<open>T::Release()\<close>, the \<^emph>\<open>decrement\<close> of the Referenceable capability.
  The call that takes the count from one to zero destroys the referent.
\<close>

definition Release :: "ref \<Rightarrow> world \<Rightarrow> world option" where
  "Release r w =
     (if \<not> alive w r \<or> count w r = 0 then None
      else if count w r = 1
        then Some (w\<lparr>count := (count w)(r := 0), alive := (alive w)(r := False),
                     log := log w @ [Dec r, Delete r]\<rparr>)
        else Some (w\<lparr>count := (count w)(r := count w r - 1), log := log w @ [Dec r]\<rparr>))"

text \<open>\<^verbatim>\<open>if (p) p->AddRef();\<close> and \<^verbatim>\<open>if (p) p->Release();\<close>\<close>

definition if_AddRef :: "ptr \<Rightarrow> world \<Rightarrow> world option" where
  "if_AddRef p w = (case p of None \<Rightarrow> Some w | Some r \<Rightarrow> AddRef r w)"

definition if_Release :: "ptr \<Rightarrow> world \<Rightarrow> world option" where
  "if_Release p w = (case p of None \<Rightarrow> Some w | Some r \<Rightarrow> Release r w)"

section \<open>The members of scoped_refptr\<close>

text \<open>
  Every member takes the address of its object first and the world last; it returns \<open>None\<close>
  where the C++ program has no defined behaviour: a constructor on storage that already
  holds a handle, any other member on storage that holds none, and a call of
  \<^verbatim>\<open>AddRef\<close> or \<^verbatim>\<open>Release\<close> outside the referent's contract.  The assignment operators return
  \<^verbatim>\<open>*this\<close>, which carries no information beyond the address the caller passed.
\<close>

text \<open>\<^verbatim>\<open>scoped_refptr() : ptr_(nullptr) {}\<close>\<close>

definition ctor_default :: "handle \<Rightarrow> world \<Rightarrow> world option" where
  "ctor_default h w = (if live w h then None else Some (store (Field h) None w))"

text \<open>\<^verbatim>\<open>scoped_refptr(T* p) : ptr_(p) { if (ptr_) ptr_->AddRef(); }\<close>\<close>

definition ctor_raw :: "handle \<Rightarrow> ptr \<Rightarrow> world \<Rightarrow> world option" where
  "ctor_raw h p w =
     (if live w h then None
      else do {
        let w1 = store (Field h) p w;
        q \<leftarrow> ptr_field w1 h;
        if_AddRef q w1
      })"

text \<open>\<^verbatim>\<open>scoped_refptr(const scoped_refptr<T>& r) : ptr_(r.ptr_) { if (ptr_) ptr_->AddRef(); }\<close>\<close>

definition ctor_copy :: "handle \<Rightarrow> handle \<Rightarrow> world \<Rightarrow> world option" where
  "ctor_copy h r w =
     (if live w h then None
      else do {
        p \<leftarrow> ptr_field w r;
        let w1 = store (Field h) p w;
        q \<leftarrow> ptr_field w1 h;
        if_AddRef q w1
      })"

text \<open>\<^verbatim>\<open>T* get() const { return ptr_; }\<close>, and the other three read accessors:
  \<^verbatim>\<open>operator T*() const { return ptr_; }\<close>,
  \<^verbatim>\<open>T& operator*() const { return *ptr_; }\<close>,
  \<^verbatim>\<open>T* operator->() const { return ptr_; }\<close>.
  Each returns its value together with the world it leaves behind.  \<^verbatim>\<open>operator*\<close> forms a
  reference to the referent, which is undefined for a null pointer.\<close>

definition get :: "handle \<Rightarrow> world \<Rightarrow> (ptr \<times> world) option" where
  "get h w = do { p \<leftarrow> ptr_field w h; Some (p, w) }"

definition to_raw :: "handle \<Rightarrow> world \<Rightarrow> (ptr \<times> world) option" where
  "to_raw h w = do { p \<leftarrow> ptr_field w h; Some (p, w) }"

definition deref :: "handle \<Rightarrow> world \<Rightarrow> (ref \<times> world) option" where
  "deref h w = do { p \<leftarrow> ptr_field w h; r \<leftarrow> p; Some (r, w) }"

definition arrow :: "handle \<Rightarrow> world \<Rightarrow> (ptr \<times> world) option" where
  "arrow h w = do { p \<leftarrow> ptr_field w h; Some (p, w) }"

text \<open>\<^verbatim>\<open>template <typename U> scoped_refptr(const scoped_refptr<U>& r) : ptr_(r.get())
  { if (ptr_) ptr_->AddRef(); }\<close>\<close>

definition ctor_copy_from :: "handle \<Rightarrow> handle \<Rightarrow> world \<Rightarrow> world option" where
  "ctor_copy_from h r w =
     (if live w h then None
      else do {
        (p, w0) \<leftarrow> get r w;
        let w1 = store (Field h) p w0;
        q \<leftarrow> ptr_field w1 h;
        if_AddRef q w1
      })"

text \<open>\<^verbatim>\<open>T* release() { T* retVal = ptr_; ptr_ = nullptr; return retVal; }\<close>\<close>

definition release :: "handle \<Rightarrow> world \<Rightarrow> (ptr \<times> world) option" where
  "release h w = do {
     retVal \<leftarrow> ptr_field w h;
     let w1 = store (Field h) None w;
     Some (retVal, w1)
   }"

text \<open>\<^verbatim>\<open>scoped_refptr(scoped_refptr<T>&& r) noexcept : ptr_(r.release()) {}\<close>\<close>

definition ctor_move :: "handle \<Rightarrow> handle \<Rightarrow> world \<Rightarrow> world option" where
  "ctor_move h r w =
     (if live w h then None
      else do {
        (p, w1) \<leftarrow> release r w;
        Some (store (Field h) p w1)
      })"

text \<open>\<^verbatim>\<open>template <typename U> scoped_refptr(scoped_refptr<U>&& r) noexcept
  : ptr_(r.release()) {}\<close>\<close>

definition ctor_move_from :: "handle \<Rightarrow> handle \<Rightarrow> world \<Rightarrow> world option" where
  "ctor_move_from h r w =
     (if live w h then None
      else do {
        (p, w1) \<leftarrow> release r w;
        Some (store (Field h) p w1)
      })"

text \<open>\<^verbatim>\<open>~scoped_refptr() { if (ptr_) ptr_->Release(); }\<close>, after which no handle lives at
  the address.\<close>

definition dtor :: "handle \<Rightarrow> world \<Rightarrow> world option" where
  "dtor h w = do {
     p \<leftarrow> ptr_field w h;
     w1 \<leftarrow> if_Release p w;
     Some (vacate (Field h) w1)
   }"

text \<open>
  \<^verbatim>\<open>scoped_refptr<T>& operator=(T* p) {
    if (p) p->AddRef();
    if (ptr_) ptr_->Release();
    ptr_ = p;
    return *this; }\<close>

  The three statements are three functions, so that the worlds between them can be named.
\<close>

definition assign_raw_addref :: "ptr \<Rightarrow> world \<Rightarrow> world option" where
  "assign_raw_addref p w = if_AddRef p w"

definition assign_raw_release :: "handle \<Rightarrow> world \<Rightarrow> world option" where
  "assign_raw_release h w = do { q \<leftarrow> ptr_field w h; if_Release q w }"

definition assign_raw_store :: "handle \<Rightarrow> ptr \<Rightarrow> world \<Rightarrow> world option" where
  "assign_raw_store h p w = (if live w h then Some (store (Field h) p w) else None)"

definition assign_raw :: "handle \<Rightarrow> ptr \<Rightarrow> world \<Rightarrow> world option" where
  "assign_raw h p w = do {
     w1 \<leftarrow> assign_raw_addref p w;
     w2 \<leftarrow> assign_raw_release h w1;
     assign_raw_store h p w2
   }"

text \<open>\<^verbatim>\<open>scoped_refptr<T>& operator=(const scoped_refptr<T>& r) { return *this = r.ptr_; }\<close>\<close>

definition assign_copy :: "handle \<Rightarrow> handle \<Rightarrow> world \<Rightarrow> world option" where
  "assign_copy h r w = do { p \<leftarrow> ptr_field w r; assign_raw h p w }"

text \<open>\<^verbatim>\<open>template <typename U> scoped_refptr<T>& operator=(const scoped_refptr<U>& r)
  { return *this = r.get(); }\<close>\<close>

definition assign_copy_from :: "handle \<Rightarrow> handle \<Rightarrow> world \<Rightarrow> world option" where
  "assign_copy_from h r w = do { (p, w0) \<leftarrow> get r w; assign_raw h p w0 }"

text \<open>\<^verbatim>\<open>void swap(T** pp) noexcept { T* p = ptr_; ptr_ = *pp; *pp = p; }\<close>\<close>

definition swap_slot :: "handle \<Rightarrow> slot \<Rightarrow> world \<Rightarrow> world option" where
  "swap_slot h pp w = do {
     p \<leftarrow> ptr_field w h;
     x \<leftarrow> slots w pp;
     let w1 = store (Field h) x w;
     Some (store pp p w1)
   }"

text \<open>\<^verbatim>\<open>void swap(scoped_refptr<T>& r) noexcept { swap(&r.ptr_); }\<close>\<close>

definition swap :: "handle \<Rightarrow> handle \<Rightarrow> world \<Rightarrow> world option" where
  "swap h r w = swap_slot h (Field r) w"

text \<open>
  \<^verbatim>\<open>scoped_refptr<T>& operator=(scoped_refptr<T>&& r) noexcept {
    scoped_refptr<T>(std::move(r)).swap(*this);
    return *this; }\<close>

  The unnamed temporary is the handle at the address \<open>Temporary\<close>; it is destroyed at the
  end of the full expression.
\<close>

definition assign_move :: "handle \<Rightarrow> handle \<Rightarrow> world \<Rightarrow> world option" where
  "assign_move h r w = do {
     w1 \<leftarrow> ctor_move Temporary r w;
     w2 \<leftarrow> swap Temporary h w1;
     dtor Temporary w2
   }"

text \<open>\<^verbatim>\<open>template <typename U> scoped_refptr<T>& operator=(scoped_refptr<U>&& r) noexcept {
    scoped_refptr<T>(std::move(r)).swap(*this);
    return *this; }\<close>\<close>

definition assign_move_from :: "handle \<Rightarrow> handle \<Rightarrow> world \<Rightarrow> world option" where
  "assign_move_from h r w = do {
     w1 \<leftarrow> ctor_move_from Temporary r w;
     w2 \<leftarrow> swap Temporary h w1;
     dtor Temporary w2
   }"

section \<open>Programs: sequences of member calls\<close>

text \<open>
  A caller declares handles at the addresses \<open>Named n\<close> and pointer variables at the
  addresses \<open>Raw n\<close>, and calls the members one after the other.  What \<^verbatim>\<open>release()\<close> returns
  goes to the caller: the second component of the state lists the referents of the non-null
  pointers that \<^verbatim>\<open>release()\<close> has handed out so far.
\<close>

datatype call =
    Default nat
  | FromRaw nat ptr
  | Copy nat nat
  | CopyFrom nat nat
  | Move nat nat
  | MoveFrom nat nat
  | Destroy nat
  | Detach nat
  | AssignRaw nat ptr
  | AssignCopy nat nat
  | AssignCopyFrom nat nat
  | AssignMove nat nat
  | AssignMoveFrom nat nat
  | SwapSlot nat nat
  | Swap nat nat

type_synonym state = "world \<times> ref list"

fun exec :: "call \<Rightarrow> state \<Rightarrow> state option" where
  "exec (Default h) (w, rel) = do { w' \<leftarrow> ctor_default (Named h) w; Some (w', rel) }"
| "exec (FromRaw h p) (w, rel) = do { w' \<leftarrow> ctor_raw (Named h) p w; Some (w', rel) }"
| "exec (Copy h r) (w, rel) = do { w' \<leftarrow> ctor_copy (Named h) (Named r) w; Some (w', rel) }"
| "exec (CopyFrom h r) (w, rel) =
     do { w' \<leftarrow> ctor_copy_from (Named h) (Named r) w; Some (w', rel) }"
| "exec (Move h r) (w, rel) = do { w' \<leftarrow> ctor_move (Named h) (Named r) w; Some (w', rel) }"
| "exec (MoveFrom h r) (w, rel) =
     do { w' \<leftarrow> ctor_move_from (Named h) (Named r) w; Some (w', rel) }"
| "exec (Destroy h) (w, rel) = do { w' \<leftarrow> dtor (Named h) w; Some (w', rel) }"
| "exec (Detach h) (w, rel) =
     do { (p, w') \<leftarrow> release (Named h) w;
          Some (w', case p of None \<Rightarrow> rel | Some r \<Rightarrow> r # rel) }"
| "exec (AssignRaw h p) (w, rel) = do { w' \<leftarrow> assign_raw (Named h) p w; Some (w', rel) }"
| "exec (AssignCopy h r) (w, rel) =
     do { w' \<leftarrow> assign_copy (Named h) (Named r) w; Some (w', rel) }"
| "exec (AssignCopyFrom h r) (w, rel) =
     do { w' \<leftarrow> assign_copy_from (Named h) (Named r) w; Some (w', rel) }"
| "exec (AssignMove h r) (w, rel) =
     do { w' \<leftarrow> assign_move (Named h) (Named r) w; Some (w', rel) }"
| "exec (AssignMoveFrom h r) (w, rel) =
     do { w' \<leftarrow> assign_move_from (Named h) (Named r) w; Some (w', rel) }"
| "exec (SwapSlot h s) (w, rel) = do { w' \<leftarrow> swap_slot (Named h) (Raw s) w; Some (w', rel) }"
| "exec (Swap h r) (w, rel) = do { w' \<leftarrow> swap (Named h) (Named r) w; Some (w', rel) }"

fun run :: "call list \<Rightarrow> state \<Rightarrow> state option" where
  "run [] s = Some s"
| "run (c # cs) s = do { s' \<leftarrow> exec c s; run cs s' }"

text \<open>
  At the start no handle exists, the caller's pointer variables are null, every referent is
  fresh (alive, claim count 0), nothing has been logged and nothing released.
\<close>

definition start :: state where
  "start = (\<lparr>slots = (\<lambda>a. case a of Field h \<Rightarrow> None | Raw s \<Rightarrow> Some None),
             count = (\<lambda>r. 0), alive = (\<lambda>r. True), log = []\<rparr>, [])"

text \<open>The handles whose field points at a referent, and the caller's pointer variables
  that do.\<close>

definition holders :: "world \<Rightarrow> ref \<Rightarrow> handle set" where
  "holders w r = {h. ptr_field w h = Some (Some r)}"

definition raw_holders :: "world \<Rightarrow> ref \<Rightarrow> nat set" where
  "raw_holders w r = {s. slots w (Raw s) = Some (Some r)}"

fun is_SwapSlot :: "call \<Rightarrow> bool" where
  "is_SwapSlot (SwapSlot h s) = True"
| "is_SwapSlot c = False"

text \<open>The scenario of the spec: construct A from a fresh referent, copy A into B,
  destroy A, destroy B.  Handle A is \<open>Named 0\<close>, B is \<open>Named 1\<close>, the referent is 7.\<close>

definition scenario :: "call list" where
  "scenario = [FromRaw 0 (Some 7), Copy 1 0, Destroy 0, Destroy 1]"

definition observe :: "ref \<Rightarrow> state option \<Rightarrow> (nat \<times> bool \<times> event list) option" where
  "observe r s = map_option (\<lambda>(w, rel). (count w r, alive w r, log w)) s"

section \<open>The platform threading initializer\<close>

text \<open>
  \<^verbatim>\<open>rtc_base/system/cocoa_threading.mm\<close>:

  \<^verbatim>\<open>void InitCocoaMultiThreading() {
    static BOOL is_cocoa_multithreaded = [NSThread isMultiThreaded];
    if (!is_cocoa_multithreaded) {
      [NSThread detachNewThreadSelector:@selector(class) toTarget:[NSObject class] withObject:nil];
      is_cocoa_multithreaded = YES;
      RTC_DCHECK([NSThread isMultiThreaded]);
    }
  }\<close>

  The state of the process, as far as the function touches it: whether the function-local
  static has been initialised, its value, what \<^verbatim>\<open>[NSThread isMultiThreaded]\<close> answers, and
  how many threads have been detached.  Foundation is the platform's: detaching a thread
  makes the application multithreaded for good.  \<^verbatim>\<open>RTC_DCHECK\<close> (from \<^verbatim>\<open>rtc_base/checks.h\<close>,
  not among the sources) aborts the process in a checked build when its condition is
  false; \<open>dcheck_is_on\<close> says whether the build is checked, and an abort is \<open>None\<close>.
\<close>

record process =
  static_initialized :: bool
  is_cocoa_multithreaded :: bool
  isMultiThreaded :: bool
  detached :: nat

definition detachNewThreadSelector :: "process \<Rightarrow> process" where
  "detachNewThreadSelector s = s\<lparr>isMultiThreaded := True, detached := detached s + 1\<rparr>"

definition RTC_DCHECK :: "bool \<Rightarrow> bool \<Rightarrow> process \<Rightarrow> process option" where
  "RTC_DCHECK dcheck_is_on c s = (if dcheck_is_on \<and> \<not> c then None else Some s)"

definition InitCocoaMultiThreading :: "bool \<Rightarrow> process \<Rightarrow> process option" where
  "InitCocoaMultiThreading dcheck_is_on s =
     (let s1 = (if static_initialized s then s
                else s\<lparr>static_initialized := True,
                       is_cocoa_multithreaded := isMultiThreaded s\<rparr>)
      in if \<not> is_cocoa_multithreaded s1
         then (let s2 = detachNewThreadSelector s1;
                   s3 = s2\<lparr>is_cocoa_multithreaded := True\<rparr>
               in RTC_DCHECK dcheck_is_on (isMultiThreaded s3) s3)
         else Some s1)"

text \<open>\<open>calls n\<close>: the function called \<open>n\<close> times in a row.\<close>

fun calls :: "bool \<Rightarrow> nat \<Rightarrow> process \<Rightarrow> process option" where
  "calls d 0 s = Some s"
| "calls d (Suc n) s = do { s' \<leftarrow> InitCocoaMultiThreading d s; calls d n s' }"

section \<open>Auxiliary notions for the proofs\<close>

text \<open>The events that \<^verbatim>\<open>if (q) q->Release();\<close> adds to the log in world \<open>w\<close>.\<close>

definition released_events :: "world \<Rightarrow> ptr \<Rightarrow> event list" where
  "released_events w q =
     (case q of None \<Rightarrow> [] | Some r \<Rightarrow> if count w r = 1 then [Dec r, Delete r] else [Dec r])"

text \<open>
  The slots (fields of handles and pointer variables alike) that point at a referent, and
  the surplus of a referent: its claim count minus the number of slots pointing at it.
\<close>

definition pointing :: "world \<Rightarrow> ref \<Rightarrow> slot set" where
  "pointing w r = {a. slots w a = Some (Some r)}"

definition surplus :: "world \<Rightarrow> ref \<Rightarrow> int" where
  "surplus w r = int (count w r) - int (card (pointing w r))"

definition tidy :: "world \<Rightarrow> bool" where
  "tidy w = (\<forall>r. finite (pointing w r))"

definition balanced :: "state \<Rightarrow> bool" where
  "balanced s = (tidy (fst s) \<and> (\<forall>r. surplus (fst s) r = int (count_list (snd s) r)))"

section \<open>Example inputs\<close>

text \<open>
  A world with three handles and one pointer variable: \<open>Named 0\<close> holds referent 7,
  \<open>Named 1\<close> holds referent 9, \<open>Named 2\<close> is null, \<open>Raw 0\<close> is null; 7 and 9 have one claim
  each.
\<close>

definition three_handles :: world where
  "three_handles =
     \<lparr>slots = (\<lambda>a. None)(Field (Named 0) \<mapsto> Some 7, Field (Named 1) \<mapsto> Some 9,
                          Field (Named 2) \<mapsto> None, Raw 0 \<mapsto> None),
      count = (\<lambda>r. 0)(7 := 1, 9 := 1), alive = (\<lambda>r. True), log = []\<rparr>"

text \<open>A program that constructs, copies and detaches, and one that constructs a handle
  and swaps it with a pointer variable.\<close>

definition detaching :: "call list" where
  "detaching = [FromRaw 0 (Some 7), Copy 1 0, Detach 0]"

definition swapping_out :: "call list" where
  "swapping_out = [FromRaw 0 (Some 7), SwapSlot 0 0]"

text \<open>
  A world with two handles on one referent: \<open>Named 0\<close> and \<open>Named 1\<close> both hold referent 7,
  which has two claims.
\<close>

definition aliased_handles :: world where
  "aliased_handles =
     \<lparr>slots = (\<lambda>a. None)(Field (Named 0) \<mapsto> Some 7, Field (Named 1) \<mapsto> Some 7),
      count = (\<lambda>r. 0)(7 := 2), alive = (\<lambda>r. True), log = []\<rparr>"

text \<open>The program \<^verbatim>\<open>scoped_refptr<T> a(p); scoped_refptr<T> b(a); b = std::move(a);\<close> with
  \<open>a\<close> at \<open>Named 0\<close>, \<open>b\<close> at \<open>Named 1\<close> and \<open>p\<close> the fresh referent 7, and what is
  observed of a state: the count of a referent, the fields of two handles, and the log.\<close>

definition aliasing_move :: "call list" where
  "aliasing_move = [FromRaw 0 (Some 7), Copy 1 0, AssignMove 1 0]"

definition observe_fields ::
  "ref \<Rightarrow> nat \<Rightarrow> nat \<Rightarrow> state option \<Rightarrow> (nat \<times> ptr option \<times> ptr option \<times> event list) option" where
  "observe_fields r a b s =
     map_option (\<lambda>(w, rel). (count w r, ptr_field w (Named a), ptr_field w (Named b), log w)) s"

text \<open>A process that has not called the initializer yet and is single-threaded.\<close>

definition fresh_process :: process where
  "fresh_process = \<lparr>static_initialized = False, is_cocoa_multithreaded = False,
                     isMultiThreaded = False, detached = 0\<rparr>"

section \<open>Basic facts\<close>

lemmas member_defs = ptr_field_def live_def store_def vacate_def if_AddRef_def if_Release_def
  AddRef_def Release_def

lemma store_same: "slots w a = Some p \<Longrightarrow> store a p w = w"
  by (simp add: store_def fun_upd_idem)

lemma three_handles_fields:
  "ptr_field three_handles (Named 0) = Some (Some 7)"
  "ptr_field three_handles (Named 1) = Some (Some 9)"
  "ptr_field three_handles (Named 2) = Some None"
  "slots three_handles (Raw 0) = Some None"
  "\<not> live three_handles (Named 3)"
  "\<not> live three_handles Temporary"
  by (simp_all add: three_handles_def ptr_field_def live_def)

lemma three_handles_counts:
  "count three_handles 7 = 1" "count three_handles 9 = 1" "alive three_handles r"
  by (simp_all add: three_handles_def)

section \<open>The accessors and release()\<close>

text \<open>
  Claim C9.  On a handle whose field holds \<open>p\<close>, each of \<^verbatim>\<open>get()\<close>, the conversion to
  \<^verbatim>\<open>T*\<close> and \<^verbatim>\<open>operator->\<close> returns \<open>p\<close> (null included), and \<^verbatim>\<open>operator*\<close> returns the
  referent when \<open>p\<close> is not null; each leaves the whole world as it was: the field, every
  claim count, and the log of \<^verbatim>\<open>AddRef\<close> and \<^verbatim>\<open>Release\<close> calls.
\<close>

theorem accessors_read_only:
  assumes "ptr_field w h = Some p"
  shows "get h w = Some (p, w) \<and> to_raw h w = Some (p, w) \<and> arrow h w = Some (p, w)
    \<and> deref h w = (case p of None \<Rightarrow> None | Some r \<Rightarrow> Some (r, w))"
  using assms by (simp add: get_def to_raw_def arrow_def deref_def split: option.splits)

theorem accessors_read_only_witness:
  "ptr_field three_handles (Named 0) = Some (Some 7)
   \<and> get (Named 0) three_handles = Some (Some 7, three_handles)
   \<and> to_raw (Named 0) three_handles = Some (Some 7, three_handles)
   \<and> arrow (Named 0) three_handles = Some (Some 7, three_handles)
   \<and> deref (Named 0) three_handles = Some (7, three_handles)"
  using accessors_read_only [OF three_handles_fields(1)] three_handles_fields(1) by simp

text \<open>
  Claim C10.  \<^verbatim>\<open>release()\<close> on a handle whose field is null is defined: it returns null
  and leaves the world as it was, so the field stays null and no \<^verbatim>\<open>AddRef\<close> or
  \<^verbatim>\<open>Release\<close> is called on any referent.
\<close>

theorem release_null:
  assumes "ptr_field w h = Some None"
  shows "release h w = Some (None, w)"
  using assms by (simp add: release_def store_same ptr_field_def)

theorem release_null_witness:
  "ptr_field three_handles (Named 2) = Some None
   \<and> release (Named 2) three_handles = Some (None, three_handles)"
  using release_null [OF three_handles_fields(3)] three_handles_fields(3) by simp

text \<open>
  Claim C4.  \<^verbatim>\<open>release()\<close> on a handle whose field holds \<open>p\<close> returns \<open>p\<close> and sets the field
  to null; no other slot, no claim count and no referent changes, and nothing is logged.
  When \<open>p\<close> is a referent, the handle leaves the set of handles pointing at it while the
  count stays, so exactly one claim is now the caller's.  Destroying the handle afterwards
  only ends its lifetime: counts, referents and log are still those from before the
  release.
\<close>

theorem release_detaches:
  assumes "ptr_field w h = Some p"
  shows "\<exists>w' w''. release h w = Some (p, w') \<and> ptr_field w' h = Some None
      \<and> (\<forall>a. a \<noteq> Field h \<longrightarrow> slots w' a = slots w a)
      \<and> count w' = count w \<and> alive w' = alive w \<and> log w' = log w
      \<and> (\<forall>r. p = Some r \<longrightarrow> h \<in> holders w r \<and> holders w' r = holders w r - {h})
      \<and> dtor h w' = Some w'' \<and> \<not> live w'' h
      \<and> (\<forall>a. a \<noteq> Field h \<longrightarrow> slots w'' a = slots w a)
      \<and> count w'' = count w \<and> alive w'' = alive w \<and> log w'' = log w"
  using assms
  by (auto simp: release_def dtor_def holders_def member_defs)

theorem release_detaches_witness:
  "ptr_field three_handles (Named 0) = Some (Some 7)
   \<and> (\<exists>w' w''. release (Named 0) three_handles = Some (Some 7, w')
        \<and> ptr_field w' (Named 0) = Some None
        \<and> slots w' (Field (Named 1)) = Some (Some 9)
        \<and> count w' 7 = 1 \<and> alive w' 7 \<and> log w' = []
        \<and> Named 0 \<in> holders three_handles 7
        \<and> holders w' 7 = holders three_handles 7 - {Named 0}
        \<and> dtor (Named 0) w' = Some w'' \<and> \<not> live w'' (Named 0)
        \<and> slots w'' (Field (Named 1)) = Some (Some 9)
        \<and> count w'' 7 = 1 \<and> alive w'' 7 \<and> log w'' = [])"
proof -
  from release_detaches [OF three_handles_fields(1)]
  obtain w' w'' where "release (Named 0) three_handles = Some (Some 7, w')"
    and "ptr_field w' (Named 0) = Some None"
    and "\<forall>a. a \<noteq> Field (Named 0) \<longrightarrow> slots w' a = slots three_handles a"
    and "count w' = count three_handles" and "alive w' = alive three_handles"
    and "log w' = log three_handles"
    and "\<forall>r. Some 7 = Some r \<longrightarrow>
           Named 0 \<in> holders three_handles r
           \<and> holders w' r = holders three_handles r - {Named 0}"
    and "dtor (Named 0) w' = Some w''" and "\<not> live w'' (Named 0)"
    and "\<forall>a. a \<noteq> Field (Named 0) \<longrightarrow> slots w'' a = slots three_handles a"
    and "count w'' = count three_handles" and "alive w'' = alive three_handles"
    and "log w'' = log three_handles"
    by blast
  then show ?thesis
    using three_handles_fields(1)
    by (intro conjI exI [of _ w'] exI [of _ w'']) (simp_all add: three_handles_def)
qed

section \<open>Move construction and swap\<close>

text \<open>
  Claim C5.  Move construction of a new handle \<open>b\<close> from a handle \<open>a\<close> whose field holds \<open>p\<close>
  (the constructor over \<^verbatim>\<open>T\<close> and the one over a related \<^verbatim>\<open>U\<close> alike): the field of \<open>b\<close>
  becomes \<open>p\<close>, the field of \<open>a\<close> becomes null, no other slot changes, no claim count
  changes and nothing is logged; \<open>b\<close> takes the place of \<open>a\<close> among the handles pointing at
  the referent.
\<close>

theorem ctor_move_transfers:
  assumes "\<not> live w b" and "ptr_field w a = Some p"
  shows "\<exists>w'. ctor_move b a w = Some w' \<and> ctor_move_from b a w = Some w'
      \<and> ptr_field w' b = Some p \<and> ptr_field w' a = Some None
      \<and> (\<forall>x. x \<noteq> Field a \<and> x \<noteq> Field b \<longrightarrow> slots w' x = slots w x)
      \<and> count w' = count w \<and> alive w' = alive w \<and> log w' = log w
      \<and> (\<forall>r. p = Some r \<longrightarrow> holders w' r = insert b (holders w r - {a}))"
  using assms
  by (auto simp: ctor_move_def ctor_move_from_def release_def holders_def member_defs)

theorem ctor_move_transfers_witness:
  "\<not> live three_handles (Named 3) \<and> ptr_field three_handles (Named 0) = Some (Some 7)
   \<and> (\<exists>w'. ctor_move (Named 3) (Named 0) three_handles = Some w'
        \<and> ctor_move_from (Named 3) (Named 0) three_handles = Some w'
        \<and> ptr_field w' (Named 3) = Some (Some 7) \<and> ptr_field w' (Named 0) = Some None
        \<and> slots w' (Field (Named 1)) = Some (Some 9)
        \<and> count w' 7 = 1 \<and> alive w' 7 \<and> log w' = []
        \<and> holders w' 7 = insert (Named 3) (holders three_handles 7 - {Named 0}))"
proof -
  from ctor_move_transfers [OF three_handles_fields(5) three_handles_fields(1)]
  obtain w' where "ctor_move (Named 3) (Named 0) three_handles = Some w'"
    and "ctor_move_from (Named 3) (Named 0) three_handles = Some w'"
    and "ptr_field w' (Named 3) = Some (Some 7)" and "ptr_field w' (Named 0) = Some None"
    and "\<forall>x. x \<noteq> Field (Named 0) \<and> x \<noteq> Field (Named 3) \<longrightarrow> slots w' x = slots three_handles x"
    and "count w' = count three_handles" and "alive w' = alive three_handles"
    and "log w' = log three_handles"
    and "\<forall>r. Some 7 = Some r \<longrightarrow>
           holders w' r = insert (Named 3) (holders three_handles r - {Named 0})"
    by blast
  then show ?thesis
    using three_handles_fields(1) three_handles_fields(5)
    by (intro conjI exI [of _ w']) (simp_all add: three_handles_def)
qed

text \<open>
  Claim C6.  \<^verbatim>\<open>swap(T** pp)\<close> on a handle whose field holds \<open>x\<close>, with \<open>pp\<close> pointing at a slot
  that holds \<open>y\<close> (the field of a handle or a pointer variable of the caller): afterwards
  the field holds \<open>y\<close> and the slot holds \<open>x\<close>, no other slot changes, no claim count
  changes and nothing is logged.  \<^verbatim>\<open>swap(scoped_refptr& r)\<close> is that operation on the
  field of \<open>r\<close>.
\<close>

theorem swap_exchanges:
  assumes "ptr_field w h = Some x" and "slots w pp = Some y"
  shows "\<exists>w'. swap_slot h pp w = Some w' \<and> ptr_field w' h = Some y \<and> slots w' pp = Some x
      \<and> (\<forall>a. a \<noteq> Field h \<and> a \<noteq> pp \<longrightarrow> slots w' a = slots w a)
      \<and> count w' = count w \<and> alive w' = alive w \<and> log w' = log w
      \<and> swap h r w = swap_slot h (Field r) w"
  using assms
  by (auto simp: swap_slot_def swap_def member_defs)

theorem swap_exchanges_witness:
  "ptr_field three_handles (Named 0) = Some (Some 7)
   \<and> slots three_handles (Field (Named 1)) = Some (Some 9)
   \<and> (\<exists>w'. swap (Named 0) (Named 1) three_handles = Some w'
        \<and> ptr_field w' (Named 0) = Some (Some 9) \<and> ptr_field w' (Named 1) = Some (Some 7)
        \<and> slots w' (Field (Named 2)) = Some None
        \<and> count w' 7 = 1 \<and> count w' 9 = 1 \<and> alive w' 7 \<and> log w' = [])"
proof -
  have f1: "slots three_handles (Field (Named 1)) = Some (Some 9)"
    using three_handles_fields(2) by (simp add: ptr_field_def)
  from swap_exchanges [OF three_handles_fields(1) f1, of "Named 1"]
  obtain w' where "swap_slot (Named 0) (Field (Named 1)) three_handles = Some w'"
    and "ptr_field w' (Named 0) = Some (Some 9)"
    and "slots w' (Field (Named 1)) = Some (Some 7)"
    and "\<forall>a. a \<noteq> Field (Named 0) \<and> a \<noteq> Field (Named 1) \<longrightarrow> slots w' a = slots three_handles a"
    and "count w' = count three_handles" and "alive w' = alive three_handles"
    and "log w' = log three_handles"
    and "swap (Named 0) (Named 1) three_handles
           = swap_slot (Named 0) (Field (Named 1)) three_handles"
    by blast
  then show ?thesis
    using three_handles_fields(1) f1
    by (intro conjI exI [of _ w']) (simp_all add: three_handles_def ptr_field_def)
qed

section \<open>Assignment\<close>

text \<open>What \<^verbatim>\<open>operator=(T* p)\<close> does to the slots and to the log, whenever it is defined.\<close>

lemma assign_raw_effect:
  assumes "ptr_field w h = Some q" and "assign_raw h p w = Some w'"
  shows "slots w' = (slots w)(Field h \<mapsto> p)"
    and "log w' = log w @ (case p of None \<Rightarrow> [] | Some r \<Rightarrow> [Inc r])
           @ (case q of None \<Rightarrow> []
              | Some r \<Rightarrow> if count w r + (if p = Some r then 1 else 0) = 1
                         then [Dec r, Delete r] else [Dec r])"
  using assms
  by (auto simp: assign_raw_def assign_raw_addref_def assign_raw_release_def
      assign_raw_store_def member_defs split: option.splits if_splits bind_splits)

lemma assign_raw_keeps_claimed:
  assumes "assign_raw h p w = Some w'" and "p = Some x" and "1 \<le> count w x"
  shows "alive w' x \<and> 1 \<le> count w' x"
  using assms
  by (auto simp: assign_raw_def assign_raw_addref_def assign_raw_release_def
      assign_raw_store_def member_defs split: option.splits if_splits bind_splits)



text \<open>
  Claim C7.  Copy assignment \<open>d = r\<close>, for \<open>r\<close> of the same or of a related type, is the
  assignment of the raw pointer \<open>r.get()\<close>: the same result in every world, defined or not.
  When it is defined, the field of \<open>r\<close> is what it was, \<open>d\<close> holds the same pointer, \<open>r\<close> is
  still among the handles pointing at its referent, the log has grown by exactly one
  increment of that referent followed by the decrement of what \<open>d\<close> held, and a referent
  that had a claim before is alive and has one afterwards.  Cross-type copy construction
  of a new handle from \<open>r\<close> logs exactly one increment of the referent of \<open>r\<close> (none when
  \<open>r\<close> is null), raises its count by one, and yields a handle whose accessor returns the
  pointer of \<open>r\<close>.
\<close>

theorem assign_copy_delegates:
  assumes "ptr_field w r = Some p"
  shows "assign_copy d r w = (case get r w of None \<Rightarrow> None | Some (q, w0) \<Rightarrow> assign_raw d q w0)
    \<and> assign_copy_from d r w = assign_copy d r w
    \<and> (\<forall>q w'. ptr_field w d = Some q \<and> assign_copy d r w = Some w' \<longrightarrow>
          ptr_field w' r = Some p \<and> ptr_field w' d = Some p
          \<and> (\<forall>a. a \<noteq> Field d \<longrightarrow> slots w' a = slots w a)
          \<and> log w' = log w @ (case p of None \<Rightarrow> [] | Some x \<Rightarrow> [Inc x])
               @ (case q of None \<Rightarrow> []
                  | Some x \<Rightarrow> if count w x + (if p = Some x then 1 else 0) = 1
                             then [Dec x, Delete x] else [Dec x])
          \<and> (\<forall>x. p = Some x \<longrightarrow> r \<in> holders w' x \<and> d \<in> holders w' x
                \<and> (1 \<le> count w x \<longrightarrow> alive w' x \<and> 1 \<le> count w' x)))
    \<and> (\<forall>h. \<not> live w h \<and> (\<forall>x. p = Some x \<longrightarrow> alive w x) \<longrightarrow>
          (\<exists>w'. ctor_copy_from h r w = Some w' \<and> ctor_copy h r w = Some w'
             \<and> get h w' = Some (p, w') \<and> get r w' = Some (p, w')
             \<and> log w' = log w @ (case p of None \<Rightarrow> [] | Some x \<Rightarrow> [Inc x])
             \<and> (\<forall>x. count w' x = count w x + (if p = Some x then 1 else 0))
             \<and> alive w' = alive w))"
proof (intro conjI allI impI)
  show "assign_copy d r w = (case get r w of None \<Rightarrow> None | Some (q, w0) \<Rightarrow> assign_raw d q w0)"
    by (simp add: assign_copy_def get_def split: bind_splits option.splits)
  show "assign_copy_from d r w = assign_copy d r w"
    by (simp add: assign_copy_from_def assign_copy_def get_def split: bind_splits option.splits)
next
  fix q w'
  assume "ptr_field w d = Some q \<and> assign_copy d r w = Some w'"
  with assms have f: "ptr_field w d = Some q" and a: "assign_raw d p w = Some w'"
    by (simp_all add: assign_copy_def)
  note s = assign_raw_effect(1) [OF f a]
  from s assms show "ptr_field w' r = Some p" by (simp add: ptr_field_def)
  from s show "ptr_field w' d = Some p" by (simp add: ptr_field_def)
  from s show "\<And>a. a \<noteq> Field d \<Longrightarrow> slots w' a = slots w a" by simp
  from assign_raw_effect(2) [OF f a]
  show "log w' = log w @ (case p of None \<Rightarrow> [] | Some x \<Rightarrow> [Inc x])
               @ (case q of None \<Rightarrow> []
                  | Some x \<Rightarrow> if count w x + (if p = Some x then 1 else 0) = 1
                             then [Dec x, Delete x] else [Dec x])" .
  from s assms show "\<And>x. p = Some x \<Longrightarrow> r \<in> holders w' x"
    by (simp add: holders_def ptr_field_def)
  from s show "\<And>x. p = Some x \<Longrightarrow> d \<in> holders w' x"
    by (simp add: holders_def ptr_field_def)
  from assign_raw_keeps_claimed [OF a]
  show "\<And>x. p = Some x \<Longrightarrow> 1 \<le> count w x \<Longrightarrow> alive w' x"
    and "\<And>x. p = Some x \<Longrightarrow> 1 \<le> count w x \<Longrightarrow> 1 \<le> count w' x"
    by simp_all
next
  fix h
  assume "\<not> live w h \<and> (\<forall>x. p = Some x \<longrightarrow> alive w x)"
  with assms
  show "\<exists>w'. ctor_copy_from h r w = Some w' \<and> ctor_copy h r w = Some w'
             \<and> get h w' = Some (p, w') \<and> get r w' = Some (p, w')
             \<and> log w' = log w @ (case p of None \<Rightarrow> [] | Some x \<Rightarrow> [Inc x])
             \<and> (\<forall>x. count w' x = count w x + (if p = Some x then 1 else 0))
             \<and> alive w' = alive w"
    by (cases p) (auto simp: ctor_copy_from_def ctor_copy_def get_def member_defs)
qed

theorem assign_copy_delegates_witness:
  "ptr_field three_handles (Named 0) = Some (Some 7)
   \<and> ptr_field three_handles (Named 1) = Some (Some 9)
   \<and> \<not> live three_handles (Named 3) \<and> alive three_handles 7 \<and> 1 \<le> count three_handles 7
   \<and> assign_copy (Named 1) (Named 0) three_handles
       = assign_raw (Named 1) (Some 7) three_handles
   \<and> assign_copy_from (Named 1) (Named 0) three_handles
       = assign_copy (Named 1) (Named 0) three_handles
   \<and> (\<exists>w'. assign_copy (Named 1) (Named 0) three_handles = Some w'
        \<and> ptr_field w' (Named 0) = Some (Some 7) \<and> ptr_field w' (Named 1) = Some (Some 7)
        \<and> log w' = [Inc 7, Dec 9, Delete 9]
        \<and> Named 0 \<in> holders w' 7 \<and> Named 1 \<in> holders w' 7 \<and> alive w' 7 \<and> 1 \<le> count w' 7)
   \<and> (\<exists>w'. ctor_copy_from (Named 3) (Named 0) three_handles = Some w'
        \<and> get (Named 3) w' = Some (Some 7, w') \<and> get (Named 0) w' = Some (Some 7, w')
        \<and> log w' = [Inc 7] \<and> count w' 7 = 2 \<and> count w' 9 = 1)"
proof -
  note t = assign_copy_delegates [OF three_handles_fields(1), of "Named 1"]
  have g: "get (Named 0) three_handles = Some (Some 7, three_handles)"
    using three_handles_fields(1) by (simp add: get_def)
  from t g have e1: "assign_copy (Named 1) (Named 0) three_handles
       = assign_raw (Named 1) (Some 7) three_handles"
    by simp
  from t have e2: "assign_copy_from (Named 1) (Named 0) three_handles
       = assign_copy (Named 1) (Named 0) three_handles"
    by blast
  have c1: "1 \<le> count three_handles 7" by (simp add: three_handles_counts)
  have "assign_copy (Named 1) (Named 0) three_handles \<noteq> None"
    by code_simp
  then obtain w' where a: "assign_copy (Named 1) (Named 0) three_handles = Some w'"
    by auto
  from t have "ptr_field three_handles (Named 1) = Some (Some 9)
      \<and> assign_copy (Named 1) (Named 0) three_handles = Some w' \<longrightarrow>
      ptr_field w' (Named 0) = Some (Some 7) \<and> ptr_field w' (Named 1) = Some (Some 7)
      \<and> (\<forall>a. a \<noteq> Field (Named 1) \<longrightarrow> slots w' a = slots three_handles a)
      \<and> log w' = log three_handles @ (case Some 7 of None \<Rightarrow> [] | Some x \<Rightarrow> [Inc x])
          @ (case Some 9 of None \<Rightarrow> []
             | Some x \<Rightarrow> if count three_handles x + (if Some (7::nat) = Some x then 1 else 0) = 1
                        then [Dec x, Delete x] else [Dec x])
      \<and> (\<forall>x. Some 7 = Some x \<longrightarrow> Named 0 \<in> holders w' x \<and> Named 1 \<in> holders w' x
            \<and> (1 \<le> count three_handles x \<longrightarrow> alive w' x \<and> 1 \<le> count w' x))"
    by blast
  with a three_handles_fields(2) c1
  have second: "\<exists>w'. assign_copy (Named 1) (Named 0) three_handles = Some w'
        \<and> ptr_field w' (Named 0) = Some (Some 7) \<and> ptr_field w' (Named 1) = Some (Some 7)
        \<and> log w' = [Inc 7, Dec 9, Delete 9]
        \<and> Named 0 \<in> holders w' 7 \<and> Named 1 \<in> holders w' 7 \<and> alive w' 7 \<and> 1 \<le> count w' 7"
    by (simp add: three_handles_def)
  from t have "\<not> live three_handles (Named 3)
      \<and> (\<forall>x. Some 7 = Some x \<longrightarrow> alive three_handles x) \<longrightarrow>
      (\<exists>w'. ctor_copy_from (Named 3) (Named 0) three_handles = Some w'
         \<and> ctor_copy (Named 3) (Named 0) three_handles = Some w'
         \<and> get (Named 3) w' = Some (Some 7, w') \<and> get (Named 0) w' = Some (Some 7, w')
         \<and> log w' = log three_handles @ (case Some 7 of None \<Rightarrow> [] | Some x \<Rightarrow> [Inc x])
         \<and> (\<forall>x. count w' x = count three_handles x + (if Some (7::nat) = Some x then 1 else 0))
         \<and> alive w' = alive three_handles)"
    by blast
  with three_handles_fields(5) three_handles_counts(3)
  obtain w'' where "ctor_copy_from (Named 3) (Named 0) three_handles = Some w''"
    and "get (Named 3) w'' = Some (Some 7, w'')" and "get (Named 0) w'' = Some (Some 7, w'')"
    and "log w'' = log three_handles @ [Inc 7]"
    and "\<forall>x. count w'' x = count three_handles x + (if Some (7::nat) = Some x then 1 else 0)"
    by auto
  then have third: "\<exists>w'. ctor_copy_from (Named 3) (Named 0) three_handles = Some w'
        \<and> get (Named 3) w' = Some (Some 7, w') \<and> get (Named 0) w' = Some (Some 7, w')
        \<and> log w' = [Inc 7] \<and> count w' 7 = 2 \<and> count w' 9 = 1"
    by (intro exI [of _ w'']) (simp add: three_handles_def)
  from e1 e2 second third three_handles_fields(1,2,5) three_handles_counts(3) c1
  show ?thesis by blast
qed

text \<open>
  Claim C3, as amended.  Move assignment \<open>d = move(s)\<close> (over \<^verbatim>\<open>T\<close> and over a related
  \<^verbatim>\<open>U\<close> alike) constructs a temporary by move from \<open>s\<close>, swaps it with \<open>d\<close> and destroys it.
  For every destination \<open>d\<close> holding \<open>q\<close> (backed by a claim when non-null) and every source
  \<open>s\<close> holding \<open>p\<close>, the same object included, the assignment is defined and afterwards:
  \<open>d\<close> holds \<open>p\<close>; \<open>s\<close> is null when it is another object than \<open>d\<close>; no other slot has
  changed; when \<open>d\<close> and \<open>s\<close> are different objects the log has grown by exactly the one
  decrement of \<open>q\<close> (with its destruction when that was the last claim), and otherwise by
  nothing; the count of every referent other than \<open>q\<close> is unchanged, so the count of the
  moved referent is unchanged whenever \<open>q\<close> is distinct from it.  When \<open>d\<close> and \<open>s\<close> are
  different handles on the same referent, that referent is the one decremented, and its
  count drops by one.  Self-move leaves the world exactly as it was, which is the
  unchanged case of null-or-unchanged: the handle keeps its referent and nothing is
  incremented, decremented or destroyed.
\<close>

theorem assign_move_swaps:
  assumes "\<not> live w Temporary" and "ptr_field w d = Some q" and "ptr_field w s = Some p"
    and "\<forall>x. q = Some x \<longrightarrow> alive w x \<and> 1 \<le> count w x"
  shows "\<exists>w'. assign_move d s w = Some w' \<and> assign_move_from d s w = Some w'
      \<and> ptr_field w' d = Some p
      \<and> (d \<noteq> s \<longrightarrow> ptr_field w' s = Some None)
      \<and> (d = s \<longrightarrow> w' = w)
      \<and> (\<forall>a. a \<noteq> Field d \<and> a \<noteq> Field s \<longrightarrow> slots w' a = slots w a)
      \<and> log w' = log w @ (if d = s then [] else released_events w q)
      \<and> (\<forall>x. q \<noteq> Some x \<longrightarrow> count w' x = count w x \<and> alive w' x = alive w x)
      \<and> (\<forall>x. d \<noteq> s \<and> q = Some x \<longrightarrow> count w' x = count w x - 1)
      \<and> (q \<noteq> p \<longrightarrow> (\<forall>x. p = Some x \<longrightarrow> count w' x = count w x))
      \<and> (d \<noteq> s \<and> q = p \<longrightarrow> (\<forall>x. p = Some x \<longrightarrow> count w' x = count w x - 1))"
proof (cases "d = s")
  case True
  with assms have "assign_move d s w = Some w \<and> assign_move_from d s w = Some w \<and> q = p"
    by (auto simp: assign_move_def assign_move_from_def ctor_move_def ctor_move_from_def
        release_def swap_def swap_slot_def dtor_def member_defs
        fun_upd_idem fun_upd_twist split: option.splits)
  with True assms(2) show ?thesis
    by (intro exI [of _ w]) simp
next
  case False
  with assms show ?thesis
    by (auto simp: assign_move_def assign_move_from_def ctor_move_def ctor_move_from_def
        release_def swap_def swap_slot_def dtor_def released_events_def member_defs
        fun_upd_idem fun_upd_twist split: option.splits)
qed

lemma aliased_handles_fields:
  "ptr_field aliased_handles (Named 0) = Some (Some 7)"
  "ptr_field aliased_handles (Named 1) = Some (Some 7)"
  "\<not> live aliased_handles Temporary"
  "\<forall>x. Some 7 = Some x \<longrightarrow> alive aliased_handles x \<and> 1 \<le> count aliased_handles x"
  by (simp_all add: aliased_handles_def ptr_field_def live_def)

theorem assign_move_swaps_witness:
  "\<not> live three_handles Temporary \<and> ptr_field three_handles (Named 1) = Some (Some 9)
   \<and> ptr_field three_handles (Named 0) = Some (Some 7)
   \<and> alive three_handles 9 \<and> 1 \<le> count three_handles 9 \<and> Named 1 \<noteq> Named 0
   \<and> (\<exists>w'. assign_move (Named 1) (Named 0) three_handles = Some w'
        \<and> assign_move_from (Named 1) (Named 0) three_handles = Some w'
        \<and> ptr_field w' (Named 1) = Some (Some 7) \<and> ptr_field w' (Named 0) = Some None
        \<and> slots w' (Field (Named 2)) = Some None
        \<and> log w' = [Dec 9, Delete 9] \<and> count w' 9 = 0 \<and> count w' 7 = 1)
   \<and> assign_move (Named 1) (Named 1) three_handles = Some three_handles
   \<and> assign_move_from (Named 1) (Named 1) three_handles = Some three_handles
   \<and> \<not> live aliased_handles Temporary
   \<and> ptr_field aliased_handles (Named 1) = Some (Some 7)
   \<and> ptr_field aliased_handles (Named 0) = Some (Some 7)
   \<and> alive aliased_handles 7 \<and> count aliased_handles 7 = 2
   \<and> (\<exists>w'. assign_move (Named 1) (Named 0) aliased_handles = Some w'
        \<and> ptr_field w' (Named 1) = Some (Some 7) \<and> ptr_field w' (Named 0) = Some None
        \<and> log w' = [Dec 7] \<and> count w' 7 = 1)"
proof -
  have c: "\<forall>x. Some 9 = Some x \<longrightarrow> alive three_handles x \<and> 1 \<le> count three_handles x"
    by (simp add: three_handles_counts)
  note t = assign_move_swaps [OF three_handles_fields(6) three_handles_fields(2)
      three_handles_fields(1) c]
  have ne: "Named 1 \<noteq> Named 0" by simp
  have qp: "Some (9::nat) \<noteq> Some 7" by simp
  from t ne qp obtain w' where "assign_move (Named 1) (Named 0) three_handles = Some w'"
    and "assign_move_from (Named 1) (Named 0) three_handles = Some w'"
    and "ptr_field w' (Named 1) = Some (Some 7)" and "ptr_field w' (Named 0) = Some None"
    and "\<forall>a. a \<noteq> Field (Named 1) \<and> a \<noteq> Field (Named 0) \<longrightarrow> slots w' a = slots three_handles a"
    and "log w' = log three_handles
           @ (if Named 1 = Named 0 then [] else released_events three_handles (Some 9))"
    and "\<forall>x. Named 1 \<noteq> Named 0 \<and> Some 9 = Some x \<longrightarrow> count w' x = count three_handles x - 1"
    and "\<forall>x. Some 7 = Some x \<longrightarrow> count w' x = count three_handles x"
    by blast
  then have first: "\<exists>w'. assign_move (Named 1) (Named 0) three_handles = Some w'
        \<and> assign_move_from (Named 1) (Named 0) three_handles = Some w'
        \<and> ptr_field w' (Named 1) = Some (Some 7) \<and> ptr_field w' (Named 0) = Some None
        \<and> slots w' (Field (Named 2)) = Some None
        \<and> log w' = [Dec 9, Delete 9] \<and> count w' 9 = 0 \<and> count w' 7 = 1"
    by (intro exI [of _ w']) (simp add: three_handles_def released_events_def)
  note u = assign_move_swaps [OF three_handles_fields(6) three_handles_fields(2)
      three_handles_fields(2) c]
  from u have self: "assign_move (Named 1) (Named 1) three_handles = Some three_handles
      \<and> assign_move_from (Named 1) (Named 1) three_handles = Some three_handles"
    by auto
  have c9: "alive three_handles 9 \<and> 1 \<le> count three_handles 9"
    by (simp add: three_handles_counts)
  note v = assign_move_swaps [OF aliased_handles_fields(3) aliased_handles_fields(2)
      aliased_handles_fields(1) aliased_handles_fields(4)]
  from v ne obtain w'' where "assign_move (Named 1) (Named 0) aliased_handles = Some w''"
    and "ptr_field w'' (Named 1) = Some (Some 7)" and "ptr_field w'' (Named 0) = Some None"
    and "log w'' = log aliased_handles
           @ (if Named 1 = Named 0 then [] else released_events aliased_handles (Some 7))"
    and "\<forall>x. Some 7 = Some x \<longrightarrow> count w'' x = count aliased_handles x - 1"
    by blast
  then have third: "\<exists>w'. assign_move (Named 1) (Named 0) aliased_handles = Some w'
        \<and> ptr_field w' (Named 1) = Some (Some 7) \<and> ptr_field w' (Named 0) = Some None
        \<and> log w' = [Dec 7] \<and> count w' 7 = 1"
    by (intro exI [of _ w'']) (simp add: aliased_handles_def released_events_def)
  have a7: "alive aliased_handles 7 \<and> count aliased_handles 7 = 2"
    by (simp add: aliased_handles_def)
  from first self third ne c9 a7 three_handles_fields(1,2,6) aliased_handles_fields(1,2,3)
  show ?thesis by blast
qed

text \<open>
  The claim as stated promises an unchanged total claim count and a decrement of the
  previous referent of \<open>d\<close> only if it is distinct.  After
  \<^verbatim>\<open>scoped_refptr<T> a(p); scoped_refptr<T> b(a);\<close> the referent has count 2 and both
  handles hold it; \<^verbatim>\<open>b = std::move(a);\<close> then leaves \<open>b\<close> on the referent and \<open>a\<close> null,
  with one decrement logged and the count at 1.
\<close>

theorem assign_move_aliasing_counterexample:
  "observe_fields 7 0 1 (run (take 2 aliasing_move) start)
     = Some (2, Some (Some 7), Some (Some 7), [Inc 7, Inc 7])
   \<and> observe_fields 7 0 1 (run aliasing_move start)
     = Some (1, Some None, Some (Some 7), [Inc 7, Inc 7, Dec 7])"
  by code_simp

section \<open>The claim count invariant\<close>

text \<open>How the primitive steps change the set of slots pointing at a referent and its
  surplus.\<close>

lemma pointing_store:
  "pointing (store a p w) r = (if p = Some r then insert a (pointing w r) else pointing w r - {a})"
  by (auto simp: pointing_def store_def)

lemma pointing_kill:
  "pointing (vacate a w) r = pointing w r - {a}"
  by (auto simp: pointing_def vacate_def)

lemma tidy_store: "tidy w \<Longrightarrow> tidy (store a p w)"
  by (simp add: tidy_def pointing_store)

lemma tidy_kill: "tidy w \<Longrightarrow> tidy (vacate a w)"
  by (simp add: tidy_def pointing_kill)

lemma count_store: "count (store a p w) = count w"
  by (simp add: store_def)

lemma slots_store: "slots (store a p w) b = (if b = a then Some p else slots w b)"
  by (simp add: store_def)

lemma slots_vacate: "slots (vacate a w) b = (if b = a then None else slots w b)"
  by (simp add: vacate_def)

lemma count_vacate: "count (vacate a w) = count w"
  by (simp add: vacate_def)

lemma surplus_store:
  assumes "tidy w"
  shows "surplus (store a p w) r =
    surplus w r + (if slots w a = Some (Some r) then 1 else 0) - (if p = Some r then 1 else 0)"
proof -
  have fin: "finite (pointing w r)" using assms by (simp add: tidy_def)
  have mem: "a \<in> pointing w r \<longleftrightarrow> slots w a = Some (Some r)" by (simp add: pointing_def)
  show ?thesis
  proof (cases "slots w a = Some (Some r)")
    case True
    with mem have "a \<in> pointing w r" by simp
    with fin have "card (pointing w r) = Suc (card (pointing w r - {a}))"
      by (rule card.remove)
    with True mem fin show ?thesis
      by (simp add: surplus_def pointing_store count_store insert_absorb)
  next
    case False
    with mem have "a \<notin> pointing w r" by simp
    with fin show ?thesis
      by (simp add: surplus_def pointing_store count_store False)
  qed
qed

lemma surplus_kill:
  assumes "tidy w"
  shows "surplus (vacate a w) r =
    surplus w r + (if slots w a = Some (Some r) then 1 else 0)"
proof -
  have fin: "finite (pointing w r)" using assms by (simp add: tidy_def)
  have mem: "a \<in> pointing w r \<longleftrightarrow> slots w a = Some (Some r)" by (simp add: pointing_def)
  show ?thesis
  proof (cases "slots w a = Some (Some r)")
    case True
    with mem have "a \<in> pointing w r" by simp
    with fin have "card (pointing w r) = Suc (card (pointing w r - {a}))"
      by (rule card.remove)
    with True show ?thesis
      by (simp add: surplus_def pointing_kill count_vacate)
  next
    case False
    with mem have "a \<notin> pointing w r" by simp
    with fin show ?thesis
      by (simp add: surplus_def pointing_kill False count_vacate)
  qed
qed

lemma if_AddRef_effect:
  assumes "if_AddRef p w = Some w'"
  shows "slots w' = slots w" and "tidy w' = tidy w"
    and "surplus w' r = surplus w r + (if p = Some r then 1 else 0)"
  using assms
  by (auto simp: if_AddRef_def AddRef_def surplus_def tidy_def pointing_def
      split: option.splits if_splits)

lemma if_Release_effect:
  assumes "if_Release p w = Some w'"
  shows "slots w' = slots w" and "tidy w' = tidy w"
    and "surplus w' r = surplus w r - (if p = Some r then 1 else 0)"
  using assms
  by (auto simp: if_Release_def Release_def surplus_def tidy_def pointing_def
      split: option.splits if_splits)


text \<open>Every member keeps the surplus of every referent, except \<^verbatim>\<open>release()\<close>, which turns
  the claim of the handle into surplus; and no member but \<^verbatim>\<open>swap(T** pp)\<close> writes to a pointer
  variable of the caller.\<close>

lemma ctor_default_keeps:
  assumes "ctor_default h w = Some w'" and "tidy w"
  shows "tidy w' \<and> surplus w' r = surplus w r \<and> slots w' (Raw s) = slots w (Raw s)"
  using assms
  by (auto simp: ctor_default_def live_def ptr_field_def tidy_store surplus_store slots_store
      split: if_splits)

lemma ctor_raw_keeps:
  assumes "ctor_raw h p w = Some w'" and "tidy w"
  shows "tidy w' \<and> surplus w' r = surplus w r \<and> slots w' (Raw s) = slots w (Raw s)"
  using assms
  by (auto simp: ctor_raw_def live_def ptr_field_def tidy_store surplus_store slots_store
      if_AddRef_effect split: if_splits)

lemma ctor_copy_keeps:
  assumes "ctor_copy h a w = Some w'" and "tidy w"
  shows "tidy w' \<and> surplus w' r = surplus w r \<and> slots w' (Raw s) = slots w (Raw s)"
  using assms
  by (auto simp: ctor_copy_def live_def ptr_field_def tidy_store surplus_store slots_store
      if_AddRef_effect split: if_splits bind_splits)

lemma ctor_copy_from_eq: "ctor_copy_from h a w = ctor_copy h a w"
  by (simp add: ctor_copy_from_def ctor_copy_def get_def split: bind_splits option.splits)

lemma release_effect:
  assumes "release h w = Some (p, w')" and "tidy w"
  shows "tidy w' \<and> surplus w' r = surplus w r + (if p = Some r then 1 else 0)
    \<and> slots w' (Raw s) = slots w (Raw s) \<and> ptr_field w h = Some p
    \<and> slots w' = (slots w)(Field h \<mapsto> None)"
  using assms
  by (auto simp: release_def ptr_field_def tidy_store surplus_store slots_store
      split: if_splits bind_splits)

lemma ctor_move_keeps:
  assumes "ctor_move h a w = Some w'" and "tidy w"
  shows "tidy w' \<and> surplus w' r = surplus w r \<and> slots w' (Raw s) = slots w (Raw s)"
proof -
  from assms(1) obtain p w1 where nl: "\<not> live w h" and rel: "release a w = Some (p, w1)"
    and w': "w' = store (Field h) p w1"
    by (auto simp: ctor_move_def split: if_splits bind_splits)
  from release_effect[OF rel assms(2)]
  have t1: "tidy w1" and s1: "\<And>r. surplus w1 r = surplus w r + (if p = Some r then 1 else 0)"
    and r1: "\<And>s. slots w1 (Raw s) = slots w (Raw s)" and pa: "ptr_field w a = Some p"
    and sl: "slots w1 = (slots w)(Field a \<mapsto> None)"
    by auto
  from nl pa have "h \<noteq> a" by (auto simp: live_def)
  with nl have "slots w1 (Field h) = None"
    by (simp add: sl live_def ptr_field_def)
  with t1 show ?thesis
    by (simp add: w' tidy_store surplus_store slots_store s1 r1)
qed

lemma ctor_move_from_eq: "ctor_move_from h a w = ctor_move h a w"
  by (simp add: ctor_move_from_def ctor_move_def)

lemma dtor_keeps:
  assumes "dtor h w = Some w'" and "tidy w"
  shows "tidy w' \<and> surplus w' r = surplus w r \<and> slots w' (Raw s) = slots w (Raw s)"
proof -
  from assms(1) obtain p w1 where p: "ptr_field w h = Some p" and rl: "if_Release p w = Some w1"
    and w': "w' = vacate (Field h) w1"
    by (auto simp: dtor_def split: bind_splits)
  from if_Release_effect[OF rl] assms(2)
  have "slots w1 = slots w" "tidy w1" "surplus w1 r = surplus w r - (if p = Some r then 1 else 0)"
    by simp_all
  with p show ?thesis
    by (auto simp: w' tidy_kill surplus_kill ptr_field_def slots_vacate)
qed

lemma assign_raw_keeps:
  assumes "assign_raw h p w = Some w'" and "tidy w"
  shows "tidy w' \<and> surplus w' r = surplus w r \<and> slots w' (Raw s) = slots w (Raw s)"
proof -
  from assms(1) obtain w1 q w2 where a: "if_AddRef p w = Some w1"
    and q: "ptr_field w1 h = Some q" and rl: "if_Release q w1 = Some w2"
    and w': "w' = store (Field h) p w2"
    by (auto simp: assign_raw_def assign_raw_addref_def assign_raw_release_def
        assign_raw_store_def split: bind_splits if_splits)
  from if_AddRef_effect[OF a] assms(2)
  have 1: "slots w1 = slots w" "tidy w1" "surplus w1 r = surplus w r + (if p = Some r then 1 else 0)"
    by simp_all
  from if_Release_effect[OF rl] 1
  have 2: "slots w2 = slots w" "tidy w2"
    "surplus w2 r = surplus w r + (if p = Some r then 1 else 0) - (if q = Some r then 1 else 0)"
    by simp_all
  from q 1 have "slots w (Field h) = Some q" by (simp add: ptr_field_def)
  with 2 show ?thesis
    by (auto simp: w' tidy_store surplus_store slots_store)
qed

lemma assign_copy_keeps:
  assumes "assign_copy h a w = Some w'" and "tidy w"
  shows "tidy w' \<and> surplus w' r = surplus w r \<and> slots w' (Raw s) = slots w (Raw s)"
  using assms by (auto simp: assign_copy_def split: bind_splits dest: assign_raw_keeps)

lemma assign_copy_from_eq: "assign_copy_from h a w = assign_copy h a w"
  by (simp add: assign_copy_from_def assign_copy_def get_def split: bind_splits option.splits)

lemma swap_slot_keeps:
  assumes "swap_slot h pp w = Some w'" and "tidy w"
  shows "tidy w' \<and> surplus w' r = surplus w r
    \<and> ((\<forall>s. pp \<noteq> Raw s) \<longrightarrow> slots w' (Raw s) = slots w (Raw s))"
  using assms
  by (auto simp: swap_slot_def ptr_field_def tidy_store surplus_store slots_store
      split: bind_splits)

lemma assign_move_keeps:
  assumes "assign_move h a w = Some w'" and "tidy w"
  shows "tidy w' \<and> surplus w' r = surplus w r \<and> slots w' (Raw s) = slots w (Raw s)"
proof -
  from assms(1) obtain w1 w2 where 1: "ctor_move Temporary a w = Some w1"
    and 2: "swap_slot Temporary (Field h) w1 = Some w2" and 3: "dtor Temporary w2 = Some w'"
    by (auto simp: assign_move_def swap_def split: bind_splits)
  from ctor_move_keeps[OF 1 assms(2)]
  have a: "tidy w1" "surplus w1 r = surplus w r" "slots w1 (Raw s) = slots w (Raw s)"
    by simp_all
  from swap_slot_keeps[OF 2 a(1)] a
  have b: "tidy w2" "surplus w2 r = surplus w r" "slots w2 (Raw s) = slots w (Raw s)"
    by simp_all
  from dtor_keeps[OF 3 b(1)] b show ?thesis by simp
qed

lemma assign_move_from_eq: "assign_move_from h a w = assign_move h a w"
  by (simp add: assign_move_from_def assign_move_def ctor_move_from_eq)


lemma pointing_start: "pointing (fst start) r = {}"
  by (auto simp: pointing_def start_def split: slot.splits)

lemma balanced_start: "balanced start"
  by (simp add: balanced_def tidy_def surplus_def pointing_start) (simp add: start_def)

lemma exec_keeps:
  assumes "exec c (w, rel) = Some (w', rel')" and "tidy w"
  shows "tidy w' \<and> surplus w' r - int (count_list rel' r) = surplus w r - int (count_list rel r)
    \<and> (\<not> is_SwapSlot c \<longrightarrow> slots w' (Raw s) = slots w (Raw s))"
proof (cases c)
  case (Default h)
  with assms ctor_default_keeps[of "Named h" w w'] show ?thesis
    by (auto split: bind_splits)
next
  case (FromRaw h p)
  with assms ctor_raw_keeps[of "Named h" p w w'] show ?thesis
    by (auto split: bind_splits)
next
  case (Copy h a)
  with assms ctor_copy_keeps[of "Named h" "Named a" w w'] show ?thesis
    by (auto split: bind_splits)
next
  case (CopyFrom h a)
  with assms ctor_copy_keeps[of "Named h" "Named a" w w'] show ?thesis
    by (auto simp: ctor_copy_from_eq split: bind_splits)
next
  case (Move h a)
  with assms ctor_move_keeps[of "Named h" "Named a" w w'] show ?thesis
    by (auto split: bind_splits)
next
  case (MoveFrom h a)
  with assms ctor_move_keeps[of "Named h" "Named a" w w'] show ?thesis
    by (auto simp: ctor_move_from_eq split: bind_splits)
next
  case (Destroy h)
  with assms dtor_keeps[of "Named h" w w'] show ?thesis
    by (auto split: bind_splits)
next
  case (Detach h)
  with assms obtain p where "release (Named h) w = Some (p, w')"
    and "rel' = (case p of None \<Rightarrow> rel | Some x \<Rightarrow> x # rel)"
    by (auto split: bind_splits)
  with release_effect[of "Named h" w p w'] assms(2) Detach show ?thesis
    by (auto split: option.splits)
next
  case (AssignRaw h p)
  with assms assign_raw_keeps[of "Named h" p w w'] show ?thesis
    by (auto split: bind_splits)
next
  case (AssignCopy h a)
  with assms assign_copy_keeps[of "Named h" "Named a" w w'] show ?thesis
    by (auto split: bind_splits)
next
  case (AssignCopyFrom h a)
  with assms assign_copy_keeps[of "Named h" "Named a" w w'] show ?thesis
    by (auto simp: assign_copy_from_eq split: bind_splits)
next
  case (AssignMove h a)
  with assms assign_move_keeps[of "Named h" "Named a" w w'] show ?thesis
    by (auto split: bind_splits)
next
  case (AssignMoveFrom h a)
  with assms assign_move_keeps[of "Named h" "Named a" w w'] show ?thesis
    by (auto simp: assign_move_from_eq split: bind_splits)
next
  case (SwapSlot h x)
  with assms swap_slot_keeps[of "Named h" "Raw x" w w'] show ?thesis
    by (auto split: bind_splits)
next
  case (Swap h a)
  with assms swap_slot_keeps[of "Named h" "Field (Named a)" w w'] show ?thesis
    by (auto simp: swap_def split: bind_splits)
qed

lemma exec_balanced:
  assumes "exec c s = Some s'" and "balanced s"
  shows "balanced s'"
proof -
  obtain w rel w' rel' where s: "s = (w, rel)" "s' = (w', rel')"
    by (cases s, cases s') auto
  from assms s have e: "exec c (w, rel) = Some (w', rel')" and t: "tidy w"
    and b: "\<And>r. surplus w r = int (count_list rel r)"
    by (simp_all add: balanced_def)
  from exec_keeps[OF e t] b show ?thesis
    by (simp add: balanced_def s)
qed

lemma run_balanced: "run cs s = Some s' \<Longrightarrow> balanced s \<Longrightarrow> balanced s'"
  by (induction cs arbitrary: s) (auto split: bind_splits dest: exec_balanced)

lemma run_raws:
  "run cs (w, rel) = Some (w', rel') \<Longrightarrow> tidy w \<Longrightarrow> \<forall>c \<in> set cs. \<not> is_SwapSlot c
    \<Longrightarrow> slots w' (Raw s) = slots w (Raw s)"
proof (induction cs arbitrary: w rel)
  case Nil
  then show ?case by simp
next
  case (Cons c cs)
  from Cons.prems(1) obtain w1 rel1 where e: "exec c (w, rel) = Some (w1, rel1)"
    and r: "run cs (w1, rel1) = Some (w', rel')"
    by (auto split: bind_splits)
  from Cons.prems(3) have n: "\<not> is_SwapSlot c" and ns: "\<forall>c \<in> set cs. \<not> is_SwapSlot c"
    by simp_all
  from exec_keeps[OF e Cons.prems(2)] have t1: "tidy w1" by simp
  from Cons.IH[OF r t1 ns] exec_keeps[OF e Cons.prems(2), of _ s] n show ?case by simp
qed

lemma pointing_split: "pointing w r = Field ` holders w r \<union> Raw ` raw_holders w r"
proof (rule set_eqI)
  fix a show "a \<in> pointing w r \<longleftrightarrow> a \<in> Field ` holders w r \<union> Raw ` raw_holders w r"
    by (cases a) (auto simp: pointing_def holders_def raw_holders_def ptr_field_def)
qed

lemma card_pointing:
  assumes "tidy w"
  shows "finite (holders w r) \<and> finite (raw_holders w r)
    \<and> card (pointing w r) = card (holders w r) + card (raw_holders w r)"
proof -
  from assms have fin: "finite (Field ` holders w r \<union> Raw ` raw_holders w r)"
    by (simp add: tidy_def pointing_split)
  then have fh: "finite (holders w r)" and fr: "finite (raw_holders w r)"
    by (auto dest: finite_imageD simp: inj_on_def)
  have "card (Field ` holders w r \<union> Raw ` raw_holders w r)
      = card (Field ` holders w r) + card (Raw ` raw_holders w r)"
    using fh fr by (intro card_Un_disjoint) auto
  also have "\<dots> = card (holders w r) + card (raw_holders w r)"
    by (simp add: card_image inj_on_def)
  finally show ?thesis using fh fr by (simp add: pointing_split)
qed



lemma scenario_counts:
  "map (\<lambda>k. observe 7 (run (take k scenario) start)) [1, 2, 3, 4] =
     [Some (1, True, [Inc 7]), Some (2, True, [Inc 7, Inc 7]),
      Some (1, True, [Inc 7, Inc 7, Dec 7]),
      Some (0, False, [Inc 7, Inc 7, Dec 7, Dec 7, Delete 7])]"
  by code_simp

text \<open>
  Claim C1, as amended.  After any sequence of member calls from the start that is
  defined, for every referent: finitely many handles and pointer variables point at it,
  and its claim count equals the number of live handles whose field points at it, plus
  the number of claims detached via \<^verbatim>\<open>release()\<close>, plus the number of the caller's pointer
  variables that point at it (they can only have received it through \<^verbatim>\<open>swap(T** pp)\<close>).
  When the sequence contains no \<^verbatim>\<open>swap(T** pp)\<close> with a pointer variable, the last number is
  zero and the equation is the one of the claim.  In the scenario (construct A from the
  fresh referent 7, copy A into B, destroy A, destroy B) the count is 1, 2, 1, 0, the
  referent is alive until the last step and is destroyed exactly once, right after the
  decrement that brings the count to zero.
\<close>

theorem claim_count_invariant:
  assumes "run cs start = Some (w, rel)"
  shows "finite (holders w r) \<and> finite (raw_holders w r)
    \<and> count w r = card (holders w r) + count_list rel r + card (raw_holders w r)
    \<and> ((\<forall>c \<in> set cs. \<not> is_SwapSlot c) \<longrightarrow>
         count w r = card (holders w r) + count_list rel r)
    \<and> map (\<lambda>k. observe 7 (run (take k scenario) start)) [1, 2, 3, 4] =
       [Some (1, True, [Inc 7]), Some (2, True, [Inc 7, Inc 7]),
        Some (1, True, [Inc 7, Inc 7, Dec 7]),
        Some (0, False, [Inc 7, Inc 7, Dec 7, Dec 7, Delete 7])]"
proof -
  from run_balanced [OF assms balanced_start]
  have t: "tidy w" and s: "surplus w r = int (count_list rel r)"
    by (simp_all add: balanced_def)
  from card_pointing [OF t]
  have fh: "finite (holders w r)" and fr: "finite (raw_holders w r)"
    and c: "card (pointing w r) = card (holders w r) + card (raw_holders w r)"
    by simp_all
  from s c have eq: "count w r = card (holders w r) + count_list rel r + card (raw_holders w r)"
    by (simp add: surplus_def)
  have raw: "raw_holders w r = {}" if "\<forall>c \<in> set cs. \<not> is_SwapSlot c"
  proof -
    obtain w0 where w0: "start = (w0, [])" and t0: "tidy w0"
      and n0: "\<And>s. slots w0 (Raw s) = Some None"
      using balanced_start by (simp add: start_def balanced_def)
    from assms w0 have "run cs (w0, []) = Some (w, rel)" by simp
    from run_raws [OF this t0 that] n0 show ?thesis
      by (simp add: raw_holders_def)
  qed
  from fh fr eq raw scenario_counts show ?thesis by simp
qed

theorem claim_count_invariant_witness:
  "\<not> (\<exists>c \<in> set detaching. is_SwapSlot c)
   \<and> (case run detaching start of
        None \<Rightarrow> False
      | Some (w, rel) \<Rightarrow> count w 7 = 2 \<and> count_list rel 7 = 1 \<and> card (holders w 7) = 1
          \<and> card (raw_holders w 7) = 0
          \<and> count w 7 = card (holders w 7) + count_list rel 7)"
proof -
  have n: "\<forall>c \<in> set detaching. \<not> is_SwapSlot c"
    by (simp add: detaching_def)
  have v: "map_option (\<lambda>(w, rel). (count w 7, rel)) (run detaching start) = Some (2, [7])"
    by code_simp
  then obtain w rel where r: "run detaching start = Some (w, rel)"
    and c: "count w 7 = 2" and l: "rel = [7]"
    by (cases "run detaching start") auto
  note t = claim_count_invariant [OF r, of 7]
  from t have a: "count w 7 = card (holders w 7) + count_list rel 7 + card (raw_holders w 7)"
    by blast
  from t n have b: "count w 7 = card (holders w 7) + count_list rel 7"
    by blast
  from a b c l have "count w 7 = 2 \<and> count_list rel 7 = 1 \<and> card (holders w 7) = 1
          \<and> card (raw_holders w 7) = 0
          \<and> count w 7 = card (holders w 7) + count_list rel 7"
    by simp
  with n show ?thesis unfolding r by simp
qed

text \<open>
  The claim as stated covers every swap.  Constructing a handle from the fresh referent 7
  and swapping it with a null pointer variable of the caller leaves the count at 1 while
  no handle points at 7 and nothing has been detached via \<^verbatim>\<open>release()\<close>.
\<close>

lemma swapping_out_result:
  "run swapping_out start = Some (w, rel) \<Longrightarrow> holders w 7 = {} \<and> count w 7 = 1 \<and> rel = []"
  by (auto simp: swapping_out_def start_def ctor_raw_def swap_slot_def holders_def member_defs
      split: if_splits)

theorem claim_count_swap_counterexample:
  "case run swapping_out start of
     None \<Rightarrow> False
   | Some (w, rel) \<Rightarrow> count w 7 = 1 \<and> card (holders w 7) + count_list rel 7 = 0
       \<and> count w 7 \<noteq> card (holders w 7) + count_list rel 7"
proof -
  have "run swapping_out start \<noteq> None" by code_simp
  then obtain w rel where r: "run swapping_out start = Some (w, rel)"
    by (cases "run swapping_out start") auto
  from swapping_out_result [OF r] show ?thesis unfolding r by simp
qed

section \<open>The platform threading initializer is engaged once\<close>

lemma InitCocoaMultiThreading_effect:
  "\<exists>s1. InitCocoaMultiThreading d s = Some s1
     \<and> static_initialized s1 \<and> is_cocoa_multithreaded s1
     \<and> detached s1 = detached s
         + (if (if static_initialized s then is_cocoa_multithreaded s else isMultiThreaded s)
            then 0 else 1)
     \<and> InitCocoaMultiThreading d s1 = Some s1"
  by (simp add: InitCocoaMultiThreading_def detachNewThreadSelector_def RTC_DCHECK_def Let_def)

lemma calls_fixed: "InitCocoaMultiThreading d s = Some s \<Longrightarrow> calls d n s = Some s"
  by (induction n) simp_all

text \<open>
  Claim C8.  In any process state, the first call returns (the check after the engagement
  holds) with the static initialised and the flag set; it has read the flag from
  \<^verbatim>\<open>[NSThread isMultiThreaded]\<close> if the static was not initialised yet, and it has detached
  exactly one thread if the flag it found was unset and none otherwise.  Any number of
  further calls returns the state the first call left: nothing more is detached and the
  flag is never reset.
\<close>

theorem init_engages_once:
  "\<exists>s1. InitCocoaMultiThreading d s = Some s1
     \<and> calls d (Suc n) s = Some s1
     \<and> static_initialized s1 \<and> is_cocoa_multithreaded s1
     \<and> detached s1 = detached s
         + (if (if static_initialized s then is_cocoa_multithreaded s else isMultiThreaded s)
            then 0 else 1)
     \<and> detached s1 \<le> detached s + 1
     \<and> InitCocoaMultiThreading d s1 = Some s1"
proof -
  from InitCocoaMultiThreading_effect [of d s]
  obtain s1 where 1: "InitCocoaMultiThreading d s = Some s1"
    and 2: "static_initialized s1" "is_cocoa_multithreaded s1"
    and 3: "detached s1 = detached s
         + (if (if static_initialized s then is_cocoa_multithreaded s else isMultiThreaded s)
            then 0 else 1)"
    and 4: "InitCocoaMultiThreading d s1 = Some s1"
    by blast
  from 1 calls_fixed [OF 4, of n] have 5: "calls d (Suc n) s = Some s1" by simp
  from 3 have 6: "detached s1 \<le> detached s + 1" by simp
  from 1 2 3 4 5 6 show ?thesis by blast
qed

theorem init_engages_once_witness:
  "\<exists>s1. InitCocoaMultiThreading True fresh_process = Some s1
     \<and> calls True (Suc 2) fresh_process = Some s1
     \<and> static_initialized s1 \<and> is_cocoa_multithreaded s1 \<and> isMultiThreaded s1
     \<and> detached s1 = 1
     \<and> InitCocoaMultiThreading True s1 = Some s1"
proof -
  from init_engages_once [of True fresh_process 2]
  obtain s1 where 1: "InitCocoaMultiThreading True fresh_process = Some s1"
    and 2: "calls True (Suc 2) fresh_process = Some s1"
    and 3: "static_initialized s1" "is_cocoa_multithreaded s1"
    and 4: "detached s1 = detached fresh_process
         + (if (if static_initialized fresh_process then is_cocoa_multithreaded fresh_process
                else isMultiThreaded fresh_process)
            then 0 else 1)"
    and 5: "InitCocoaMultiThreading True s1 = Some s1"
    by blast
  from 4 have 6: "detached s1 = 1"
    by (simp add: fresh_process_def)
  from 1 have 7: "isMultiThreaded s1"
    by (auto simp: InitCocoaMultiThreading_def detachNewThreadSelector_def RTC_DCHECK_def
        fresh_process_def Let_def)
  from 1 2 3 5 6 7 show ?thesis by blast
qed

end
